theory Spec2Isabelle
  imports Main "HOL-Library.Word"
begin

section \<open>The VHDL target of Icarus Verilog: tgt-vhdl/vhdl.cc\<close>

text \<open>
  The file keeps three file-local (\<^verbatim>\<open>static\<close>) variables: the error counter
  \<^verbatim>\<open>g_errors\<close>, the list of entities to emit \<^verbatim>\<open>g_entities\<close> and the map
  \<^verbatim>\<open>g_known_signals\<close> from Verilog signals to their VHDL definition. Every function
  of the file reads or updates them, so each function is modelled as a function on a
  record of these variables. \<^verbatim>\<open>assert\<close> is modelled as it behaves when it is
  compiled in (the file does not define \<^verbatim>\<open>NDEBUG\<close>): a failed assertion ends the
  process, which is the value \<open>Inl Assertion_failed\<close>.
\<close>

subsection \<open>Data\<close>

datatype fault = Assertion_failed

text \<open>
  \<^verbatim>\<open>ivl_signal_t\<close> is an opaque handle of the compiler core; the map compares
  handles, so a handle is a number. \<^verbatim>\<open>ivl_signal_basename\<close> is declared in
  ivl_target.h and is a parameter \<open>bn\<close> of the functions that call it.
\<close>

type_synonym ivl_signal_t = nat

text \<open>
  Modelled from the spec: class \<^verbatim>\<open>vhdl_entity\<close> is declared in vhdl_element.hh.
  This file uses a pointer to an entity, the entity's \<^verbatim>\<open>get_name()\<close> and its
  \<^verbatim>\<open>emit\<close>. An entity pointer is the address together with the name of the
  object it points to, so two objects with the same name stay different.
\<close>

record vhdl_entity =
  ent_addr :: nat
  get_name :: string

record signal_defn_t =
  renamed :: string
  ent :: vhdl_entity

text \<open>
  What the \<^verbatim>\<open>std::ofstream\<close> of \<^verbatim>\<open>target_design\<close> is asked to do, in order:
  it is opened on a path, entities are emitted to it, it is closed. How an entity is
  rendered is the business of vhdl_element.cc. The record of the file system is the
  sequence of the requests that reach it: a stream that could not be opened passes
  nothing on, neither the entities emitted to it nor its closing.
\<close>

datatype stream_op = Open string | Emit vhdl_entity | Close

text \<open>
  \<^verbatim>\<open>g_errors\<close> is a C++ \<^verbatim>\<open>int\<close>: a word of 32 bits that \<open>sint\<close> reads as two's
  complement. Its increment wraps round as the compiled code does: one more than
  \<open>2^31 - 1\<close> is \<open>- 2^31\<close>.

  The entity objects are allocated by the traversal and deleted by the clean-up of
  \<^verbatim>\<open>target_design\<close>. The field \<open>deleted\<close> holds the objects that have been deleted,
  in the order of their deletion: a pointer to one of them that is still held
  somewhere dangles.
\<close>

record state =
  g_errors :: "32 word"
  g_entities :: "vhdl_entity list"
  g_known_signals :: "ivl_signal_t \<rightharpoonup> signal_defn_t"
  stdout_text :: string
  outfile :: "stream_op list"
  deleted :: "vhdl_entity list"

text \<open>
  The static initialisers of lines 48 to 50; nothing printed, no file touched, no
  object deleted.
\<close>

definition initial_state :: state where
  "initial_state =
     \<lparr>g_errors = 0, g_entities = [], g_known_signals = Map.empty,
      stdout_text = [], outfile = [], deleted = []\<rparr>"

subsection \<open>The functions of the file\<close>

text \<open>
  \<^verbatim>\<open>error(fmt, ...)\<close>: prints the prefix, the formatted message \<open>msg\<close> and a
  newline on standard output, then increments the counter.
\<close>

definition error :: "string \<Rightarrow> state \<Rightarrow> state" where
  "error msg s =
     s\<lparr>stdout_text := stdout_text s @ ''VHDL conversion error: '' @ msg @ [CHR 0x0A],
       g_errors := g_errors s + 1\<rparr>"

text \<open>The loop of \<^verbatim>\<open>find_entity\<close>; \<open>None\<close> is the \<^verbatim>\<open>NULL\<close> it returns at the end.\<close>

fun find_entity_loop :: "vhdl_entity list \<Rightarrow> string \<Rightarrow> vhdl_entity option" where
  "find_entity_loop [] tname = None"
| "find_entity_loop (e # es) tname =
     (if get_name e = tname then Some e else find_entity_loop es tname)"

definition find_entity :: "string \<Rightarrow> state \<Rightarrow> vhdl_entity option" where
  "find_entity tname s = find_entity_loop (g_entities s) tname"

definition remember_entity :: "vhdl_entity \<Rightarrow> state \<Rightarrow> fault + state" where
  "remember_entity e s =
     (if find_entity (get_name e) s = None
      then Inr (s\<lparr>g_entities := g_entities s @ [e]\<rparr>)
      else Inl Assertion_failed)"

definition remember_signal ::
    "(ivl_signal_t \<Rightarrow> string) \<Rightarrow> ivl_signal_t \<Rightarrow> vhdl_entity \<Rightarrow> state \<Rightarrow> fault + state" where
  "remember_signal bn sig e s =
     (if g_known_signals s sig = None
      then Inr (s\<lparr>g_known_signals :=
                   (g_known_signals s)(sig \<mapsto> \<lparr>renamed = bn sig, ent = e\<rparr>)\<rparr>)
      else Inl Assertion_failed)"

definition rename_signal :: "ivl_signal_t \<Rightarrow> string \<Rightarrow> state \<Rightarrow> fault + state" where
  "rename_signal sig nm s =
     (case g_known_signals s sig of
        None \<Rightarrow> Inl Assertion_failed
      | Some d \<Rightarrow> Inr (s\<lparr>g_known_signals := (g_known_signals s)(sig \<mapsto> d\<lparr>renamed := nm\<rparr>)\<rparr>))"

text \<open>
  The two lookups index the map only after the assertion found the key, so they never
  insert a record: the state is unchanged and only the value is returned.
\<close>

definition find_entity_for_signal :: "ivl_signal_t \<Rightarrow> state \<Rightarrow> fault + vhdl_entity" where
  "find_entity_for_signal sig s =
     (case g_known_signals s sig of
        None \<Rightarrow> Inl Assertion_failed
      | Some d \<Rightarrow> Inr (ent d))"

definition get_renamed_signal :: "ivl_signal_t \<Rightarrow> state \<Rightarrow> fault + string" where
  "get_renamed_signal sig s =
     (case g_known_signals s sig of
        None \<Rightarrow> Inl Assertion_failed
      | Some d \<Rightarrow> Inr (renamed d))"

subsection \<open>The traversal\<close>

text \<open>
  Modelled from the spec: \<^verbatim>\<open>draw_scope\<close> and \<^verbatim>\<open>draw_process\<close> live in other
  files of tgt-vhdl. The three variables are \<^verbatim>\<open>static\<close>, so the traversal reaches
  them only through the functions above. One execution of the traversal is therefore
  the sequence of calls it makes; a failed assertion in one of them ends it.
\<close>

datatype call =
    Error string
  | Find_entity string
  | Remember_entity vhdl_entity
  | Remember_signal ivl_signal_t vhdl_entity
  | Rename_signal ivl_signal_t string
  | Find_entity_for_signal ivl_signal_t
  | Get_renamed_signal ivl_signal_t

fun perform :: "(ivl_signal_t \<Rightarrow> string) \<Rightarrow> call \<Rightarrow> state \<Rightarrow> fault + state" where
  "perform bn (Error msg) s = Inr (error msg s)"
| "perform bn (Find_entity tname) s = Inr s"
| "perform bn (Remember_entity e) s = remember_entity e s"
| "perform bn (Remember_signal sig e) s = remember_signal bn sig e s"
| "perform bn (Rename_signal sig nm) s = rename_signal sig nm s"
| "perform bn (Find_entity_for_signal sig) s =
     (case find_entity_for_signal sig s of Inl f \<Rightarrow> Inl f | Inr e \<Rightarrow> Inr s)"
| "perform bn (Get_renamed_signal sig) s =
     (case get_renamed_signal sig s of Inl f \<Rightarrow> Inl f | Inr nm \<Rightarrow> Inr s)"

fun draw :: "(ivl_signal_t \<Rightarrow> string) \<Rightarrow> call list \<Rightarrow> state \<Rightarrow> fault + state" where
  "draw bn [] s = Inr s"
| "draw bn (c # cs) s =
     (case perform bn c s of Inl f \<Rightarrow> Inl f | Inr s' \<Rightarrow> draw bn cs s')"

text \<open>
  The design handle, as far as \<^verbatim>\<open>target_design\<close> looks at it: for each root scope
  the calls that \<^verbatim>\<open>draw_scope\<close> makes on it, the calls that \<^verbatim>\<open>draw_process\<close>
  makes over all processes, and the value of the flag \<^verbatim>\<open>-o\<close>.
\<close>

record ivl_design_t =
  roots :: "call list list"
  processes :: "call list"
  flag_o :: string

text \<open>The loop over the roots (lines 134 and 135).\<close>

fun draw_roots :: "(ivl_signal_t \<Rightarrow> string) \<Rightarrow> call list list \<Rightarrow> state \<Rightarrow> fault + state" where
  "draw_roots bn [] s = Inr s"
| "draw_roots bn (r # rs) s =
     (case draw bn r s of Inl f \<Rightarrow> Inl f | Inr s' \<Rightarrow> draw_roots bn rs s')"

definition traverse :: "(ivl_signal_t \<Rightarrow> string) \<Rightarrow> ivl_design_t \<Rightarrow> state \<Rightarrow> fault + state" where
  "traverse bn des s =
     (case draw_roots bn (roots des) s of
        Inl f \<Rightarrow> Inl f
      | Inr s1 \<Rightarrow> draw bn (processes des) s1)"

text \<open>
  The stream of lines 143 to 150. Whether a path can be opened for writing is the file
  system's answer, the parameter \<open>can_open\<close>; the source does not test the stream, so
  on a stream that did not open (\<open>good\<close> is false) the loop still runs and each
  \<^verbatim>\<open>emit\<close>, like the closing, reaches no file.
\<close>

definition open_stream :: "bool \<Rightarrow> string \<Rightarrow> stream_op list \<Rightarrow> stream_op list" where
  "open_stream good path out = (if good then out @ [Open path] else out)"

fun emit_all :: "bool \<Rightarrow> vhdl_entity list \<Rightarrow> stream_op list \<Rightarrow> stream_op list" where
  "emit_all good [] out = out"
| "emit_all good (e # es) out = emit_all good es (if good then out @ [Emit e] else out)"

definition close_stream :: "bool \<Rightarrow> stream_op list \<Rightarrow> stream_op list" where
  "close_stream good out = (if good then out @ [Close] else out)"

text \<open>The loop of lines 154 to 157: each entity of the list is deleted.\<close>

fun delete_all :: "vhdl_entity list \<Rightarrow> vhdl_entity list \<Rightarrow> vhdl_entity list" where
  "delete_all [] del = del"
| "delete_all (e # es) del = delete_all es (del @ [e])"

text \<open>
  \<^verbatim>\<open>target_design\<close>: the traversal, the gate on \<^verbatim>\<open>g_errors\<close>, the clean-up, which
  deletes the entities of the list and clears the list, and the returned counter. The
  function assigns neither \<^verbatim>\<open>g_errors\<close> nor \<^verbatim>\<open>g_known_signals\<close>.
\<close>

definition target_design ::
    "(ivl_signal_t \<Rightarrow> string) \<Rightarrow> (string \<Rightarrow> bool) \<Rightarrow> ivl_design_t \<Rightarrow> state \<Rightarrow>
       fault + (int \<times> state)" where
  "target_design bn can_open des s =
     (case traverse bn des s of
        Inl f \<Rightarrow> Inl f
      | Inr s1 \<Rightarrow>
          let s2 = (if 0 = g_errors s1
                    then let ofname = flag_o des;
                             good = can_open ofname
                         in s1\<lparr>outfile :=
                                close_stream good
                                  (emit_all good (g_entities s1)
                                    (open_stream good ofname (outfile s1)))\<rparr>
                    else s1);
              s3 = s2\<lparr>deleted := delete_all (g_entities s2) (deleted s2)\<rparr>;
              s4 = s3\<lparr>g_entities := []\<rparr>
          in Inr (sint (g_errors s4), s4))"

subsection \<open>What a traversal reported and registered\<close>

text \<open>
  The calls of one run in the order they are made, the number of calls to
  \<^verbatim>\<open>error\<close> among them, and the entities handed to \<^verbatim>\<open>remember_entity\<close>.
\<close>

definition calls_of :: "ivl_design_t \<Rightarrow> call list" where
  "calls_of des = concat (roots des) @ processes des"

fun reported :: "call list \<Rightarrow> nat" where
  "reported [] = 0"
| "reported (Error msg # cs) = Suc (reported cs)"
| "reported (c # cs) = reported cs"

fun registered :: "call list \<Rightarrow> vhdl_entity list" where
  "registered [] = []"
| "registered (Remember_entity e # cs) = e # registered cs"
| "registered (c # cs) = registered cs"

fun registered_signals :: "call list \<Rightarrow> ivl_signal_t list" where
  "registered_signals [] = []"
| "registered_signals (Remember_signal sig e # cs) = sig # registered_signals cs"
| "registered_signals (c # cs) = registered_signals cs"

subsection \<open>The scenario of the specification\<close>

text \<open>
  Entities \<open>top\<close> and \<open>sub\<close>; signal 1 with base name \<open>clk\<close> under \<open>top\<close>, signal 2
  with base name \<open>q\<close> under \<open>sub\<close>, renamed to \<open>q_reg\<close>. The second design reports
  one error while the processes are drawn.
\<close>

definition ent_top :: vhdl_entity where
  "ent_top = \<lparr>ent_addr = 1, get_name = ''top''\<rparr>"

definition ent_sub :: vhdl_entity where
  "ent_sub = \<lparr>ent_addr = 2, get_name = ''sub''\<rparr>"

definition basenames :: "ivl_signal_t \<Rightarrow> string" where
  "basenames sig = (if sig = 1 then ''clk'' else ''q'')"

definition scenario :: ivl_design_t where
  "scenario =
     \<lparr>roots = [[Remember_entity ent_top, Remember_signal 1 ent_top],
               [Remember_entity ent_sub, Remember_signal 2 ent_sub, Rename_signal 2 ''q_reg'']],
      processes = [Find_entity_for_signal 2, Get_renamed_signal 1],
      flag_o = ''out.vhd''\<rparr>"

definition scenario_error :: ivl_design_t where
  "scenario_error = scenario\<lparr>processes := [Error ''unsupported construct'']\<rparr>"

text \<open>The state in which the traversal of \<open>scenario\<close> leaves the three variables.\<close>

definition scenario_state :: state where
  "scenario_state =
     \<lparr>g_errors = 0, g_entities = [ent_top, ent_sub],
      g_known_signals = [1 \<mapsto> \<lparr>renamed = ''clk'', ent = ent_top\<rparr>,
                         2 \<mapsto> \<lparr>renamed = ''q_reg'', ent = ent_sub\<rparr>],
      stdout_text = [], outfile = [], deleted = []\<rparr>"

text \<open>
  A later design with one entity and no error, and the states in which a whole run of
  \<open>scenario\<close> and of \<open>scenario_error\<close> leaves the process when it starts from the
  static initialisers.
\<close>

definition ent_alu :: vhdl_entity where
  "ent_alu = \<lparr>ent_addr = 3, get_name = ''alu''\<rparr>"

definition second_design :: ivl_design_t where
  "second_design = \<lparr>roots = [[Remember_entity ent_alu]], processes = [], flag_o = ''alu.vhd''\<rparr>"

definition state_after_scenario :: state where
  "state_after_scenario =
     scenario_state\<lparr>g_entities := [],
       outfile := [Open ''out.vhd'', Emit ent_top, Emit ent_sub, Close],
       deleted := [ent_top, ent_sub]\<rparr>"

definition state_after_scenario_error :: state where
  "state_after_scenario_error =
     scenario_state\<lparr>g_errors := 1, g_entities := [],
       stdout_text := ''VHDL conversion error: unsupported construct'' @ [CHR 0x0A],
       deleted := [ent_top, ent_sub]\<rparr>"

text \<open>
  A file system in which every path but the empty one can be opened, the scenario with
  an empty flag \<^verbatim>\<open>-o\<close>, and a design that registers \<open>top\<close> and then reports
  \<open>n\<close> errors.
\<close>

definition writable :: "string \<Rightarrow> bool" where
  "writable path = (path \<noteq> [])"

definition scenario_no_path :: ivl_design_t where
  "scenario_no_path = scenario\<lparr>flag_o := []\<rparr>"

definition errors_design :: "nat \<Rightarrow> ivl_design_t" where
  "errors_design n =
     \<lparr>roots = [[Remember_entity ent_top]], processes = replicate n (Error []),
      flag_o = ''out.vhd''\<rparr>"

text \<open>The largest value of the counter.\<close>

definition int_max_state :: state where
  "int_max_state = initial_state\<lparr>g_errors := 2147483647\<rparr>"

section \<open>Facts about the model\<close>

subsection \<open>The loops in closed form\<close>

lemma emit_all_eq: "emit_all good es out = (if good then out @ map Emit es else out)"
  by (induction es arbitrary: out) simp_all

lemma delete_all_eq: "delete_all es del = del @ es"
  by (induction es arbitrary: del) simp_all

lemma draw_append:
  "draw bn (cs @ ds) s = (case draw bn cs s of Inl f \<Rightarrow> Inl f | Inr s' \<Rightarrow> draw bn ds s')"
  by (induction cs arbitrary: s) (simp_all split: sum.splits)

lemma draw_roots_concat: "draw_roots bn rs s = draw bn (concat rs) s"
  by (induction rs arbitrary: s) (simp_all add: draw_append split: sum.splits)

lemma traverse_draw: "traverse bn des s = draw bn (calls_of des) s"
  by (simp add: traverse_def calls_of_def draw_append draw_roots_concat)

lemma find_entity_loop_None:
  "find_entity_loop es tname = None \<longleftrightarrow> tname \<notin> get_name ` set es"
  by (induction es) auto

lemma find_entity_loop_Some:
  "find_entity_loop es tname = Some e \<Longrightarrow> e \<in> set es \<and> get_name e = tname"
  by (induction es) (auto split: if_splits)

lemma find_entity_loop_distinct:
  "distinct (map get_name es) \<Longrightarrow> e \<in> set es \<Longrightarrow> find_entity_loop es (get_name e) = Some e"
  by (induction es) auto

subsection \<open>The counter as a word of 32 bits\<close>

lemma plus_of_nat_eq_0_iff:
  fixes c :: "32 word"
  shows "c + of_nat n = 0 \<longleftrightarrow> 4294967296 dvd (unat c + n)"
proof -
  have "c + of_nat n = of_nat (unat c + n)"
    by simp
  then show ?thesis
    by (simp only: word_of_nat_eq_0_iff) simp
qed

lemma sint_plus_of_nat:
  fixes c :: "32 word"
  assumes "sint c + int n \<le> 2147483647"
  shows "sint (c + of_nat n) = sint c + int n"
proof -
  have "c + of_nat n = word_of_int (sint c + int n)"
    by simp
  then have "sint (c + of_nat n) = signed_take_bit 31 (sint c + int n)"
    by (simp only: sint_sbintrunc') simp
  moreover have "- 2147483648 \<le> sint c + int n"
    using sint_ge [of c] by simp
  ultimately show ?thesis
    using assms by (simp add: signed_take_bit_int_eq_self)
qed

lemma sint_is_0_iff:
  fixes c :: "32 word"
  shows "sint c = 0 \<longleftrightarrow> c = 0"
  by (rule signed_eq_0_iff)

lemma positive_count_not_0:
  fixes c :: "32 word"
  assumes "0 < n" and "0 \<le> sint c" and "sint c + int n \<le> 2147483647"
  shows "c + of_nat n \<noteq> 0"
proof
  assume z: "c + of_nat n = 0"
  have "sint (c + of_nat n) = sint c + int n"
    by (rule sint_plus_of_nat [OF assms(3)])
  with z have "sint c + int n = 0"
    by (simp only: sint_0)
  with assms(1,2) show False
    by linarith
qed

subsection \<open>What one call and a sequence of calls change\<close>

lemma reported_Cons: "reported (c # cs) = reported [c] + reported cs"
  by (cases c) simp_all

lemma registered_Cons: "registered (c # cs) = registered [c] @ registered cs"
  by (cases c) simp_all

lemma registered_signals_Cons:
  "registered_signals (c # cs) = registered_signals [c] @ registered_signals cs"
  by (cases c) simp_all

lemma perform_effect:
  assumes "perform bn c s = Inr s'"
  shows "g_errors s' = g_errors s + of_nat (reported [c]) \<and>
         g_entities s' = g_entities s @ registered [c] \<and>
         dom (g_known_signals s') = dom (g_known_signals s) \<union> set (registered_signals [c]) \<and>
         outfile s' = outfile s \<and> deleted s' = deleted s"
  using assms
  by (cases c)
     (auto simp: error_def remember_entity_def remember_signal_def rename_signal_def
        find_entity_for_signal_def get_renamed_signal_def
      split: if_splits option.splits sum.splits)

lemma draw_Cons_Inr:
  assumes "draw bn (c # cs) s = Inr s'"
  obtains t where "perform bn c s = Inr t" and "draw bn cs t = Inr s'"
  using assms by (auto split: sum.splits)

lemma draw_effect:
  assumes "draw bn cs s = Inr s'"
  shows "g_errors s' = g_errors s + of_nat (reported cs) \<and>
         g_entities s' = g_entities s @ registered cs \<and>
         dom (g_known_signals s') = dom (g_known_signals s) \<union> set (registered_signals cs) \<and>
         outfile s' = outfile s \<and> deleted s' = deleted s"
  using assms
proof (induction cs arbitrary: s)
  case Nil
  then show ?case by simp
next
  case (Cons c cs)
  from Cons.prems obtain t where t: "perform bn c s = Inr t" "draw bn cs t = Inr s'"
    by (rule draw_Cons_Inr)
  from perform_effect [OF t(1)] Cons.IH [OF t(2)] show ?case
    using reported_Cons [of c cs] registered_Cons [of c cs] registered_signals_Cons [of c cs]
    by auto
qed

lemma perform_distinct_names:
  assumes "perform bn c s = Inr s'" and "distinct (map get_name (g_entities s))"
  shows "distinct (map get_name (g_entities s'))"
  using assms
  by (cases c)
     (auto simp: error_def remember_entity_def remember_signal_def rename_signal_def
        find_entity_def find_entity_loop_None
        find_entity_for_signal_def get_renamed_signal_def
      split: if_splits option.splits sum.splits)

lemma draw_distinct_names:
  assumes "draw bn cs s = Inr s'" and "distinct (map get_name (g_entities s))"
  shows "distinct (map get_name (g_entities s'))"
  using assms
proof (induction cs arbitrary: s)
  case Nil
  then show ?case by simp
next
  case (Cons c cs)
  from Cons.prems(1) obtain t where t: "perform bn c s = Inr t" "draw bn cs t = Inr s'"
    by (rule draw_Cons_Inr)
  show ?case
    by (rule Cons.IH [OF t(2) perform_distinct_names [OF t(1) Cons.prems(2)]])
qed

text \<open>Calls of \<^verbatim>\<open>error\<close> alone never end a traversal, however many they are.\<close>

lemma draw_errors_returns: "\<exists>s'. draw bn (replicate n (Error msg)) s = Inr s'"
  by (induction n arbitrary: s) simp_all

lemma reported_errors: "reported (replicate n (Error msg)) = n"
  by (induction n) simp_all

lemma registered_errors: "registered (replicate n (Error msg)) = []"
  by (induction n) simp_all

subsection \<open>The run after a completed traversal\<close>

text \<open>
  Once the traversal has returned, nothing in \<^verbatim>\<open>target_design\<close> can stop it: the
  function returns the counter, and the state it leaves is known.
\<close>

lemma target_design_completes:
  assumes "traverse bn des s = Inr s1"
  shows "target_design bn can_open des s =
           Inr (sint (g_errors s1),
                (if g_errors s1 = 0 \<and> can_open (flag_o des)
                 then s1\<lparr>outfile := outfile s1 @ Open (flag_o des) # map Emit (g_entities s1) @ [Close]\<rparr>
                 else s1)\<lparr>deleted := deleted s1 @ g_entities s1, g_entities := []\<rparr>)"
  using assms
  by (simp add: target_design_def emit_all_eq delete_all_eq open_stream_def close_stream_def
      Let_def)

lemma target_design_aborts:
  "traverse bn des s = Inl f \<Longrightarrow> target_design bn can_open des s = Inl f"
  by (simp add: target_design_def)

subsection \<open>Renaming\<close>

lemma rename_signal_twice:
  "rename_signal sig n s = Inr s1 \<Longrightarrow> rename_signal sig m s1 = rename_signal sig m s"
  by (auto simp: rename_signal_def split: option.splits)

lemma rename_signal_registered:
  "g_known_signals s sig \<noteq> None \<Longrightarrow>
     \<exists>s1. rename_signal sig n s = Inr s1 \<and> g_known_signals s1 sig \<noteq> None \<and>
       get_renamed_signal sig s1 = Inr n"
  by (auto simp: rename_signal_def get_renamed_signal_def split: option.splits)

subsection \<open>The scenario, run\<close>

lemmas scenario_defs =
  scenario_def scenario_error_def scenario_state_def initial_state_def ent_top_def ent_sub_def
  basenames_def second_design_def ent_alu_def state_after_scenario_def
  state_after_scenario_error_def writable_def scenario_no_path_def

lemmas function_defs =
  target_design_def traverse_def error_def remember_entity_def remember_signal_def
  rename_signal_def find_entity_def find_entity_for_signal_def get_renamed_signal_def
  open_stream_def close_stream_def

lemma scenario_traverse: "traverse basenames scenario initial_state = Inr scenario_state"
  by (simp add: scenario_defs function_defs)

lemma run_scenario:
  "target_design basenames writable scenario initial_state = Inr (0, state_after_scenario)"
  by (simp add: scenario_defs function_defs)

lemma run_scenario_error:
  "target_design basenames writable scenario_error initial_state =
     Inr (1, state_after_scenario_error)"
  by (simp add: scenario_defs function_defs)

lemma run_second_design:
  "target_design basenames writable second_design state_after_scenario_error =
     Inr (1, state_after_scenario_error\<lparr>deleted := [ent_top, ent_sub, ent_alu]\<rparr>)"
  by (simp add: scenario_defs function_defs)

lemma run_scenario_no_path:
  "target_design basenames writable scenario_no_path initial_state =
     Inr (0, scenario_state\<lparr>g_entities := [], deleted := [ent_top, ent_sub]\<rparr>)"
  by (simp add: scenario_defs function_defs)

lemma traverse_scenario_no_path:
  "traverse basenames scenario_no_path initial_state = Inr scenario_state"
  by (simp add: scenario_defs function_defs)

lemma traverse_scenario_error:
  "traverse basenames scenario_error initial_state =
     Inr (state_after_scenario_error\<lparr>g_entities := [ent_top, ent_sub], deleted := []\<rparr>)"
  by (simp add: scenario_defs function_defs)

lemma traverse_second_design:
  "traverse basenames second_design state_after_scenario_error =
     Inr (state_after_scenario_error\<lparr>g_entities := [ent_alu]\<rparr>)"
  by (simp add: scenario_defs function_defs)

lemma draw_scenario_roots:
  "draw basenames (concat (roots scenario)) initial_state = Inr scenario_state"
  by (simp add: scenario_defs function_defs)

text \<open>The design that reports \<open>n\<close> errors, run from the static initialisers.\<close>

lemma reported_errors_design: "reported (calls_of (errors_design n)) = n"
  by (simp add: calls_of_def errors_design_def reported_errors)

lemma traverse_errors_design:
  "\<exists>s1. traverse bn (errors_design n) initial_state = Inr s1 \<and>
     g_errors s1 = of_nat n \<and> g_entities s1 = [ent_top] \<and> outfile s1 = []"
proof -
  let ?s = "initial_state\<lparr>g_entities := [ent_top]\<rparr>"
  obtain s1 where s1: "draw bn (replicate n (Error [])) ?s = Inr s1"
    using draw_errors_returns by blast
  have "traverse bn (errors_design n) initial_state = Inr s1"
    using s1
    by (simp add: traverse_def errors_design_def remember_entity_def find_entity_def
        initial_state_def)
  with draw_effect [OF s1] show ?thesis
    by (simp add: reported_errors registered_errors initial_state_def)
qed

lemma run_errors_design:
  "map_sum id fst (target_design bn can_open (errors_design n) initial_state) =
     Inr (sint (of_nat n :: 32 word)) \<and>
   map_sum id (outfile \<circ> snd) (target_design bn can_open (errors_design n) initial_state) =
     Inr (if (of_nat n :: 32 word) = 0 \<and> can_open ''out.vhd''
          then [Open ''out.vhd'', Emit ent_top, Close] else [])"
proof -
  obtain s1 where s1: "traverse bn (errors_design n) initial_state = Inr s1"
    "g_errors s1 = of_nat n" "g_entities s1 = [ent_top]" "outfile s1 = []"
    using traverse_errors_design by blast
  show ?thesis
    using target_design_completes [OF s1(1), of can_open] s1(2-4)
    by (simp add: errors_design_def)
qed

lemma draw_errors_count:
  "map_sum id g_errors (draw bn (replicate n (Error msg)) s) = Inr (g_errors s + of_nat n)"
proof -
  obtain s' where s': "draw bn (replicate n (Error msg)) s = Inr s'"
    using draw_errors_returns by blast
  with draw_effect [OF s'] show ?thesis
    by (simp add: reported_errors)
qed

section \<open>The claims\<close>

subsection \<open>The entity registry\<close>

text \<open>
  C7. \<^verbatim>\<open>find_entity\<close> is total. When an entity of the list has the name, the result
  is an entity of the list with that name; when none has, the result is \<^verbatim>\<open>NULL\<close>.
  The function has no assertion, so its result is a plain optional value whatever the
  list holds. When the names of the list are pairwise different, as \<^verbatim>\<open>remember_entity\<close>
  keeps them, every entity of the list is found under its own name.
\<close>

theorem find_entity_total:
  "((\<exists>e \<in> set (g_entities s). get_name e = tname) \<longrightarrow>
      (\<exists>e \<in> set (g_entities s). get_name e = tname \<and> find_entity tname s = Some e)) \<and>
   ((\<forall>e \<in> set (g_entities s). get_name e \<noteq> tname) \<longrightarrow> find_entity tname s = None) \<and>
   (distinct (map get_name (g_entities s)) \<longrightarrow>
      (\<forall>e \<in> set (g_entities s). find_entity (get_name e) s = Some e))"
proof (intro conjI impI ballI)
  assume "\<exists>e \<in> set (g_entities s). get_name e = tname"
  then have "find_entity_loop (g_entities s) tname \<noteq> None"
    by (auto simp: find_entity_loop_None)
  then obtain e where "find_entity_loop (g_entities s) tname = Some e"
    by auto
  with find_entity_loop_Some [OF this]
  show "\<exists>e \<in> set (g_entities s). get_name e = tname \<and> find_entity tname s = Some e"
    by (auto simp: find_entity_def)
next
  assume "\<forall>e \<in> set (g_entities s). get_name e \<noteq> tname"
  then show "find_entity tname s = None"
    by (auto simp: find_entity_def find_entity_loop_None)
next
  fix e
  assume "distinct (map get_name (g_entities s))" and "e \<in> set (g_entities s)"
  then show "find_entity (get_name e) s = Some e"
    by (simp add: find_entity_def find_entity_loop_distinct)
qed

theorem find_entity_total_witness:
  "find_entity ''sub'' scenario_state = Some ent_sub \<and>
   find_entity ''top'' scenario_state = Some ent_top \<and>
   find_entity ''alu'' scenario_state = None"
  using find_entity_total [of scenario_state "''sub''"]
    find_entity_total [of scenario_state "''alu''"]
  by (simp add: scenario_state_def ent_top_def ent_sub_def find_entity_def)

subsection \<open>The signal map\<close>

text \<open>
  C8. For a signal that is not yet in the map, \<^verbatim>\<open>remember_signal\<close> returns, and right
  after it \<^verbatim>\<open>get_renamed_signal\<close> gives the signal's base name and
  \<^verbatim>\<open>find_entity_for_signal\<close> gives the entity it was registered with.
\<close>

theorem remember_signal_defaults:
  assumes "g_known_signals s sig = None"
  shows "\<exists>s'. remember_signal bn sig e s = Inr s' \<and>
           get_renamed_signal sig s' = Inr (bn sig) \<and>
           find_entity_for_signal sig s' = Inr e"
  using assms
  by (simp add: remember_signal_def get_renamed_signal_def find_entity_for_signal_def)

theorem remember_signal_defaults_witness:
  "g_known_signals initial_state 1 = None \<and>
   (\<exists>s'. remember_signal basenames 1 ent_top initial_state = Inr s' \<and>
      get_renamed_signal 1 s' = Inr ''clk'' \<and>
      find_entity_for_signal 1 s' = Inr ent_top)"
proof -
  have h: "g_known_signals initial_state 1 = None"
    by (simp add: initial_state_def)
  from remember_signal_defaults [OF h, of basenames ent_top] h show ?thesis
    by (simp add: basenames_def)
qed

text \<open>
  C3. Registering a signal with entity \<open>e\<close> and then renaming it to \<open>n\<close>: both calls
  return, the name is \<open>n\<close> and the owner is still \<open>e\<close>. The rename changes the owner
  of no signal, and neither the entity list nor the error counter.
\<close>

theorem rename_keeps_owner:
  assumes "g_known_signals s sig = None"
  shows "\<exists>s1 s2. remember_signal bn sig e s = Inr s1 \<and> rename_signal sig n s1 = Inr s2 \<and>
           get_renamed_signal sig s2 = Inr n \<and>
           find_entity_for_signal sig s2 = Inr e \<and>
           (\<forall>x. find_entity_for_signal x s2 = find_entity_for_signal x s1) \<and>
           g_entities s2 = g_entities s1 \<and> g_errors s2 = g_errors s1"
  using assms
  by (simp add: remember_signal_def rename_signal_def get_renamed_signal_def
      find_entity_for_signal_def)

theorem rename_keeps_owner_witness:
  "g_known_signals initial_state 2 = None \<and>
   remember_signal basenames 2 ent_sub initial_state =
     Inr (initial_state\<lparr>g_known_signals := [2 \<mapsto> \<lparr>renamed = ''q'', ent = ent_sub\<rparr>]\<rparr>) \<and>
   rename_signal 2 ''q_reg''
       (initial_state\<lparr>g_known_signals := [2 \<mapsto> \<lparr>renamed = ''q'', ent = ent_sub\<rparr>]\<rparr>) =
     Inr (initial_state\<lparr>g_known_signals := [2 \<mapsto> \<lparr>renamed = ''q_reg'', ent = ent_sub\<rparr>]\<rparr>) \<and>
   get_renamed_signal 2
       (initial_state\<lparr>g_known_signals := [2 \<mapsto> \<lparr>renamed = ''q_reg'', ent = ent_sub\<rparr>]\<rparr>) =
     Inr ''q_reg'' \<and>
   find_entity_for_signal 2
       (initial_state\<lparr>g_known_signals := [2 \<mapsto> \<lparr>renamed = ''q_reg'', ent = ent_sub\<rparr>]\<rparr>) =
     Inr ent_sub"
proof -
  have h: "g_known_signals initial_state 2 = None"
    by (simp add: initial_state_def)
  from rename_keeps_owner [OF h, of basenames ent_sub "''q_reg''"] h show ?thesis
    by (simp add: initial_state_def basenames_def remember_signal_def rename_signal_def
        get_renamed_signal_def find_entity_for_signal_def)
qed

text \<open>
  C10. Renaming a registered signal several times in a row: every call returns, the
  name read afterwards is the one of the last call, and the state is the one that the
  last rename alone would have produced, so nothing of the earlier names is left in it.
\<close>

theorem last_rename_wins:
  assumes "g_known_signals s sig \<noteq> None" and "ns \<noteq> []"
  shows "\<exists>s'. draw bn (map (Rename_signal sig) ns) s = Inr s' \<and>
           get_renamed_signal sig s' = Inr (last ns) \<and>
           rename_signal sig (last ns) s = Inr s'"
  using assms
proof (induction ns arbitrary: s)
  case Nil
  then show ?case by simp
next
  case (Cons n ns)
  from rename_signal_registered [OF Cons.prems(1), of n]
  obtain s1 where s1: "rename_signal sig n s = Inr s1" "g_known_signals s1 sig \<noteq> None"
    "get_renamed_signal sig s1 = Inr n"
    by blast
  show ?case
  proof (cases "ns = []")
    case True
    with s1 show ?thesis by simp
  next
    case False
    from Cons.IH [OF s1(2) False] obtain s' where
      a: "draw bn (map (Rename_signal sig) ns) s1 = Inr s'" and
      b: "get_renamed_signal sig s' = Inr (last ns)" and
      c: "rename_signal sig (last ns) s1 = Inr s'"
      by blast
    have "draw bn (map (Rename_signal sig) (n # ns)) s = Inr s'"
      using s1(1) a by simp
    moreover have "get_renamed_signal sig s' = Inr (last (n # ns))"
      using b False by simp
    moreover have "rename_signal sig (last (n # ns)) s = Inr s'"
      using c rename_signal_twice [OF s1(1), of "last ns"] False by simp
    ultimately show ?thesis by blast
  qed
qed

theorem last_rename_wins_witness:
  "g_known_signals scenario_state 2 \<noteq> None \<and>
   draw basenames (map (Rename_signal 2) [''q_a'', ''q_b'', ''q_c'']) scenario_state =
     rename_signal 2 ''q_c'' scenario_state \<and>
   rename_signal 2 ''q_c'' scenario_state =
     Inr (scenario_state\<lparr>g_known_signals :=
            [1 \<mapsto> \<lparr>renamed = ''clk'', ent = ent_top\<rparr>,
             2 \<mapsto> \<lparr>renamed = ''q_c'', ent = ent_sub\<rparr>]\<rparr>) \<and>
   get_renamed_signal 2
       (scenario_state\<lparr>g_known_signals :=
            [1 \<mapsto> \<lparr>renamed = ''clk'', ent = ent_top\<rparr>,
             2 \<mapsto> \<lparr>renamed = ''q_c'', ent = ent_sub\<rparr>]\<rparr>) = Inr ''q_c''"
proof -
  have h: "g_known_signals scenario_state 2 \<noteq> None"
    by (simp add: scenario_state_def)
  have n: "[''q_a'', ''q_b'', ''q_c''] \<noteq> []"
    by simp
  from last_rename_wins [OF h n, of basenames] h show ?thesis
    by (auto simp: scenario_state_def rename_signal_def get_renamed_signal_def)
qed

text \<open>
  C6. A signal that is not in the map and is not registered by the calls that follow:
  after these calls both lookups, \<^verbatim>\<open>find_entity_for_signal\<close> and
  \<^verbatim>\<open>get_renamed_signal\<close>, fail their assertion. No value is returned, and a traversal
  that makes such a lookup ends there.
\<close>

theorem lookup_before_registration_aborts:
  assumes "g_known_signals s sig = None"
    and "draw bn cs s = Inr s'"
    and "sig \<notin> set (registered_signals cs)"
  shows "find_entity_for_signal sig s' = Inl Assertion_failed \<and>
         get_renamed_signal sig s' = Inl Assertion_failed \<and>
         draw bn (cs @ Find_entity_for_signal sig # rest) s = Inl Assertion_failed \<and>
         draw bn (cs @ Get_renamed_signal sig # rest) s = Inl Assertion_failed"
proof -
  from draw_effect [OF assms(2)] assms(1,3) have "sig \<notin> dom (g_known_signals s')"
    by auto
  then have n: "g_known_signals s' sig = None"
    by auto
  then show ?thesis
    by (simp add: find_entity_for_signal_def get_renamed_signal_def draw_append assms(2))
qed

theorem lookup_before_registration_aborts_witness:
  "g_known_signals initial_state 7 = None \<and>
   draw basenames (concat (roots scenario)) initial_state = Inr scenario_state \<and>
   7 \<notin> set (registered_signals (concat (roots scenario))) \<and>
   find_entity_for_signal 7 scenario_state = Inl Assertion_failed \<and>
   get_renamed_signal 7 scenario_state = Inl Assertion_failed \<and>
   draw basenames (concat (roots scenario) @ [Get_renamed_signal 7]) initial_state =
     Inl Assertion_failed"
proof -
  have h: "g_known_signals initial_state 7 = None"
    by (simp add: initial_state_def)
  have n: "7 \<notin> set (registered_signals (concat (roots scenario)))"
    by (simp add: scenario_def)
  from lookup_before_registration_aborts [OF h draw_scenario_roots n, of "[]"] h n
  show ?thesis
    by (simp add: draw_scenario_roots)
qed

text \<open>
  C5. After any calls that returned, an entity whose name is the name of an entity of
  the list (one that was there before or one these calls registered) cannot be
  registered: \<^verbatim>\<open>remember_entity\<close> fails its assertion. A signal that is in the map
  cannot be registered again: \<^verbatim>\<open>remember_signal\<close> fails its assertion. In both cases
  the traversal ends with the failed assertion, not with a state in which an error was
  counted.
\<close>

theorem duplicate_registration_aborts:
  assumes "draw bn cs s = Inr s'"
  shows "(e1 \<in> set (g_entities s) \<union> set (registered cs) \<and> get_name e2 = get_name e1 \<longrightarrow>
            remember_entity e2 s' = Inl Assertion_failed \<and>
            draw bn (cs @ Remember_entity e2 # rest) s = Inl Assertion_failed) \<and>
         (sig \<in> dom (g_known_signals s) \<union> set (registered_signals cs) \<longrightarrow>
            remember_signal bn sig e s' = Inl Assertion_failed \<and>
            draw bn (cs @ Remember_signal sig e # rest) s = Inl Assertion_failed)"
proof (intro conjI impI)
  note eff = draw_effect [OF assms]
  {
    assume "e1 \<in> set (g_entities s) \<union> set (registered cs) \<and> get_name e2 = get_name e1"
    with eff have "get_name e2 \<in> get_name ` set (g_entities s')"
      by auto
    then show a: "remember_entity e2 s' = Inl Assertion_failed"
      by (simp add: remember_entity_def find_entity_def find_entity_loop_None)
    show "draw bn (cs @ Remember_entity e2 # rest) s = Inl Assertion_failed"
      by (simp add: draw_append assms a)
  }
  {
    assume "sig \<in> dom (g_known_signals s) \<union> set (registered_signals cs)"
    with eff have "sig \<in> dom (g_known_signals s')"
      by simp
    then show b: "remember_signal bn sig e s' = Inl Assertion_failed"
      by (auto simp: remember_signal_def)
    show "draw bn (cs @ Remember_signal sig e # rest) s = Inl Assertion_failed"
      by (simp add: draw_append assms b)
  }
qed

theorem duplicate_registration_aborts_witness:
  "draw basenames (concat (roots scenario)) initial_state = Inr scenario_state \<and>
   ent_top \<in> set (registered (concat (roots scenario))) \<and>
   remember_entity \<lparr>ent_addr = 9, get_name = ''top''\<rparr> scenario_state = Inl Assertion_failed \<and>
   draw basenames
       (concat (roots scenario) @ [Remember_entity \<lparr>ent_addr = 9, get_name = ''top''\<rparr>])
       initial_state = Inl Assertion_failed \<and>
   1 \<in> set (registered_signals (concat (roots scenario))) \<and>
   remember_signal basenames 1 ent_sub scenario_state = Inl Assertion_failed \<and>
   draw basenames (concat (roots scenario) @ [Remember_signal 1 ent_sub]) initial_state =
     Inl Assertion_failed"
proof -
  have e: "ent_top \<in> set (registered (concat (roots scenario)))"
    by (simp add: scenario_def)
  have g: "1 \<in> set (registered_signals (concat (roots scenario)))"
    by (simp add: scenario_def)
  from duplicate_registration_aborts [OF draw_scenario_roots,
      of ent_top "\<lparr>ent_addr = 9, get_name = ''top''\<rparr>" "[]" 1 ent_sub] e g
  show ?thesis
    by (simp add: draw_scenario_roots ent_top_def)
qed

subsection \<open>The error counter\<close>

text \<open>
  C9, as amended. \<^verbatim>\<open>error\<close> prints its message and adds one to the counter, a word
  of 32 bits; it changes neither the entity list nor the signal map nor the output file
  nor the deleted objects, and it has no assertion, so it always returns. Read as an
  \<^verbatim>\<open>int\<close>, the counter goes up by exactly one as long as it is below \<open>2^31 - 1\<close>.
  Over any sequence of calls of a traversal that returns, the counter, read as an
  \<^verbatim>\<open>int\<close>, is its value at the start plus the number of errors reported, and so does
  not decrease, as long as that sum does not exceed \<open>2^31 - 1\<close>.
\<close>

theorem error_counts_one_below_int_max:
  "g_errors (error msg s) = g_errors s + 1 \<and>
   (sint (g_errors s) < 2147483647 \<longrightarrow> sint (g_errors (error msg s)) = sint (g_errors s) + 1) \<and>
   g_entities (error msg s) = g_entities s \<and>
   g_known_signals (error msg s) = g_known_signals s \<and>
   outfile (error msg s) = outfile s \<and>
   deleted (error msg s) = deleted s \<and>
   stdout_text (error msg s) = stdout_text s @ ''VHDL conversion error: '' @ msg @ [CHR 0x0A] \<and>
   perform bn (Error msg) s = Inr (error msg s) \<and>
   (\<forall>cs s'. draw bn cs s = Inr s' \<and> sint (g_errors s) + int (reported cs) \<le> 2147483647 \<longrightarrow>
      sint (g_errors s') = sint (g_errors s) + int (reported cs) \<and>
      sint (g_errors s) \<le> sint (g_errors s'))"
proof -
  have one: "sint (g_errors s) < 2147483647 \<longrightarrow>
      sint (g_errors (error msg s)) = sint (g_errors s) + 1"
    using sint_plus_of_nat [of "g_errors s" 1] by (simp add: error_def)
  have mono: "\<forall>cs s'. draw bn cs s = Inr s' \<and>
      sint (g_errors s) + int (reported cs) \<le> 2147483647 \<longrightarrow>
      sint (g_errors s') = sint (g_errors s) + int (reported cs) \<and>
      sint (g_errors s) \<le> sint (g_errors s')"
  proof (intro allI impI)
    fix cs s'
    assume a: "draw bn cs s = Inr s' \<and> sint (g_errors s) + int (reported cs) \<le> 2147483647"
    then have "g_errors s' = g_errors s + of_nat (reported cs)"
      using draw_effect by blast
    with a sint_plus_of_nat [of "g_errors s" "reported cs"]
    show "sint (g_errors s') = sint (g_errors s) + int (reported cs) \<and>
      sint (g_errors s) \<le> sint (g_errors s')"
      by simp
  qed
  show ?thesis
    using one mono by (simp add: error_def)
qed

theorem error_counts_one_below_int_max_witness:
  "sint (g_errors scenario_state) < 2147483647 \<and>
   sint (g_errors (error ''unsupported construct'' scenario_state)) = 1 \<and>
   g_entities (error ''unsupported construct'' scenario_state) = [ent_top, ent_sub] \<and>
   draw basenames [Error ''a'', Remember_entity ent_alu, Error ''b''] scenario_state =
     Inr (error ''b'' (error ''a'' scenario_state)\<lparr>g_entities := [ent_top, ent_sub, ent_alu]\<rparr>) \<and>
   sint (g_errors scenario_state) + int (reported [Error ''a'', Remember_entity ent_alu, Error ''b''])
     \<le> 2147483647 \<and>
   sint (g_errors (error ''b'' (error ''a'' scenario_state)\<lparr>g_entities := [ent_top, ent_sub, ent_alu]\<rparr>))
     = 2 \<and>
   sint (g_errors scenario_state) \<le>
     sint (g_errors (error ''b'' (error ''a'' scenario_state)\<lparr>g_entities := [ent_top, ent_sub, ent_alu]\<rparr>))"
  using error_counts_one_below_int_max [of "''unsupported construct''" scenario_state basenames]
  by (simp add: scenario_defs function_defs)

text \<open>
  The claim as it was stated fails at the largest value of the counter, which
  \<open>2^31 - 1\<close> reported errors reach from the static initialiser: one more call of
  \<^verbatim>\<open>error\<close> takes the counter from \<open>2^31 - 1\<close> to \<open>- 2^31\<close>.
\<close>

theorem error_count_wraps_counterexample:
  "map_sum id g_errors (draw basenames (replicate 2147483647 (Error [])) initial_state) =
     Inr 2147483647 \<and>
   g_errors int_max_state = 2147483647 \<and>
   sint (g_errors int_max_state) = 2147483647 \<and>
   sint (g_errors (error [] int_max_state)) = - 2147483648"
  using draw_errors_count [of basenames 2147483647 "[]" initial_state]
  by (simp add: int_max_state_def initial_state_def error_def)

subsection \<open>The run\<close>

text \<open>
  C1, as amended. A run whose traversal returns: \<^verbatim>\<open>target_design\<close> returns. The
  entity list at the gate is the list at the start followed by the entities registered,
  in the order of registration, and its members are pairwise different when the names
  at the start were. If the counter was zero at the start, no error was reported and
  the path of the flag can be opened, the file is opened, every entity of the list is
  emitted to it once, in that order, and it is closed. If an error was reported, nothing
  reaches the file system, whatever the counter was at the start, unless the counter has
  come round to zero, that is, unless its value at the start, read unsigned, plus the
  number of errors reported is a multiple of \<open>2^32\<close>; in particular nothing reaches it
  when the counter was not negative at the start and the sum does not exceed
  \<open>2^31 - 1\<close>.
\<close>

theorem emission_gated_on_counter:
  assumes "traverse bn des s = Inr s1"
  shows "\<exists>s'. target_design bn can_open des s = Inr (sint (g_errors s1), s') \<and>
     g_entities s1 = g_entities s @ registered (calls_of des) \<and>
     (distinct (map get_name (g_entities s)) \<longrightarrow> distinct (g_entities s1)) \<and>
     (g_errors s = 0 \<and> reported (calls_of des) = 0 \<and> can_open (flag_o des) \<longrightarrow>
        outfile s' = outfile s @ Open (flag_o des) # map Emit (g_entities s1) @ [Close]) \<and>
     (0 < reported (calls_of des) \<and>
      \<not> 4294967296 dvd (unat (g_errors s) + reported (calls_of des)) \<longrightarrow>
        outfile s' = outfile s) \<and>
     (0 < reported (calls_of des) \<and> 0 \<le> sint (g_errors s) \<and>
      sint (g_errors s) + int (reported (calls_of des)) \<le> 2147483647 \<longrightarrow>
        outfile s' = outfile s)"
proof -
  from assms have d: "draw bn (calls_of des) s = Inr s1"
    by (simp add: traverse_draw)
  note eff = draw_effect [OF d]
  have dist: "distinct (map get_name (g_entities s)) \<longrightarrow> distinct (g_entities s1)"
    using draw_distinct_names [OF d] by (auto dest: distinct_map [THEN iffD1])
  have zero: "g_errors s = 0 \<and> reported (calls_of des) = 0 \<longrightarrow> g_errors s1 = 0"
    using eff by simp
  have wrap: "\<not> 4294967296 dvd (unat (g_errors s) + reported (calls_of des)) \<longrightarrow>
      g_errors s1 \<noteq> 0"
    using eff plus_of_nat_eq_0_iff [of "g_errors s" "reported (calls_of des)"] by simp
  have pos: "0 < reported (calls_of des) \<and> 0 \<le> sint (g_errors s) \<and>
      sint (g_errors s) + int (reported (calls_of des)) \<le> 2147483647 \<longrightarrow> g_errors s1 \<noteq> 0"
    using eff positive_count_not_0 [of "reported (calls_of des)" "g_errors s"] by simp
  show ?thesis
    using target_design_completes [OF assms, of can_open] eff dist zero wrap pos by auto
qed

theorem emission_gated_on_counter_witness:
  "traverse basenames scenario initial_state = Inr scenario_state \<and>
   g_errors initial_state = 0 \<and>
   reported (calls_of scenario) = 0 \<and>
   writable (flag_o scenario) \<and>
   target_design basenames writable scenario initial_state = Inr (0, state_after_scenario) \<and>
   outfile state_after_scenario = [Open ''out.vhd'', Emit ent_top, Emit ent_sub, Close] \<and>
   reported (calls_of scenario_error) = 1 \<and>
   \<not> 4294967296 dvd (unat (g_errors initial_state) + reported (calls_of scenario_error)) \<and>
   target_design basenames writable scenario_error initial_state =
     Inr (1, state_after_scenario_error) \<and>
   outfile state_after_scenario_error = outfile initial_state"
  using emission_gated_on_counter [OF scenario_traverse, of writable]
    emission_gated_on_counter [OF traverse_scenario_error, of writable]
  by (simp add: scenario_traverse run_scenario run_scenario_error)
     (simp add: scenario_defs calls_of_def)

text \<open>
  The claim as it was stated fails in three ways. A run that follows a failed run in the
  same process: the first run reports one error and returns 1, the counter stays at 1,
  and the second run registers one entity and reports nothing, yet nothing is emitted.
  A run with an empty flag \<^verbatim>\<open>-o\<close>: nothing is reported, the stream does not open
  and no entity reaches a file. A run that reports \<open>2^32\<close> errors from the static
  initialiser: the counter has come round to zero and the entity is emitted.
\<close>

theorem emission_gated_counterexample:
  "target_design basenames writable scenario_error initial_state =
     Inr (1, state_after_scenario_error) \<and>
   reported (calls_of second_design) = 0 \<and>
   registered (calls_of second_design) = [ent_alu] \<and>
   writable (flag_o second_design) \<and>
   target_design basenames writable second_design state_after_scenario_error =
     Inr (1, state_after_scenario_error\<lparr>deleted := [ent_top, ent_sub, ent_alu]\<rparr>) \<and>
   outfile (state_after_scenario_error\<lparr>deleted := [ent_top, ent_sub, ent_alu]\<rparr>) = [] \<and>
   reported (calls_of scenario_no_path) = 0 \<and>
   registered (calls_of scenario_no_path) = [ent_top, ent_sub] \<and>
   target_design basenames writable scenario_no_path initial_state =
     Inr (0, scenario_state\<lparr>g_entities := [], deleted := [ent_top, ent_sub]\<rparr>) \<and>
   outfile (scenario_state\<lparr>g_entities := [], deleted := [ent_top, ent_sub]\<rparr>) = [] \<and>
   reported (calls_of (errors_design 4294967296)) = 4294967296 \<and>
   map_sum id fst (target_design basenames writable (errors_design 4294967296) initial_state) =
     Inr 0 \<and>
   map_sum id (outfile \<circ> snd)
       (target_design basenames writable (errors_design 4294967296) initial_state) =
     Inr [Open ''out.vhd'', Emit ent_top, Close]"
  using run_errors_design [of basenames writable 4294967296]
  by (simp add: run_scenario_error run_second_design run_scenario_no_path
        reported_errors_design)
     (simp add: scenario_defs calls_of_def)

text \<open>
  C4, as amended. When the traversal returns, \<^verbatim>\<open>target_design\<close> returns the counter,
  read as an \<^verbatim>\<open>int\<close>: the counter is its value at the start of the run plus the
  number of errors the run reported, in arithmetic of 32 bits, and the returned value is
  that sum itself when the sum does not exceed \<open>2^31 - 1\<close>, so it is the number of
  errors of this run when the run starts at zero. The entities are written to the file
  exactly when the returned value is 0 and the path can be opened; nothing reaches the
  file system exactly when the returned value is not 0 or the path cannot be opened. The
  returned value is not negative when the counter was not negative at the start and the
  sum does not exceed \<open>2^31 - 1\<close>; when it is not negative and the path can be
  opened, it is positive exactly when nothing reaches the file system.
\<close>

theorem target_design_returns_counter:
  assumes "traverse bn des s = Inr s1"
  shows "\<exists>s'. target_design bn can_open des s = Inr (sint (g_errors s1), s') \<and>
     g_errors s' = g_errors s1 \<and>
     g_errors s1 = g_errors s + of_nat (reported (calls_of des)) \<and>
     (sint (g_errors s) + int (reported (calls_of des)) \<le> 2147483647 \<longrightarrow>
        sint (g_errors s1) = sint (g_errors s) + int (reported (calls_of des))) \<and>
     (outfile s' = outfile s @ Open (flag_o des) # map Emit (g_entities s1) @ [Close] \<longleftrightarrow>
        sint (g_errors s1) = 0 \<and> can_open (flag_o des)) \<and>
     (outfile s' = outfile s \<longleftrightarrow> sint (g_errors s1) \<noteq> 0 \<or> \<not> can_open (flag_o des)) \<and>
     (g_errors s = 0 \<and> int (reported (calls_of des)) \<le> 2147483647 \<longrightarrow>
        sint (g_errors s1) = int (reported (calls_of des))) \<and>
     (0 \<le> sint (g_errors s) \<and> sint (g_errors s) + int (reported (calls_of des)) \<le> 2147483647 \<longrightarrow>
        0 \<le> sint (g_errors s1)) \<and>
     (0 \<le> sint (g_errors s1) \<and> can_open (flag_o des) \<longrightarrow>
        (0 < sint (g_errors s1) \<longleftrightarrow> outfile s' = outfile s))"
proof -
  from assms have d: "draw bn (calls_of des) s = Inr s1"
    by (simp add: traverse_draw)
  note eff = draw_effect [OF d]
  have sum: "sint (g_errors s) + int (reported (calls_of des)) \<le> 2147483647 \<longrightarrow>
      sint (g_errors s1) = sint (g_errors s) + int (reported (calls_of des))"
    using eff sint_plus_of_nat [of "g_errors s" "reported (calls_of des)"] by simp
  have zero: "g_errors s = 0 \<and> int (reported (calls_of des)) \<le> 2147483647 \<longrightarrow>
      sint (g_errors s1) = int (reported (calls_of des))"
    using eff sint_plus_of_nat [of 0 "reported (calls_of des)"] by simp
  show ?thesis
    using target_design_completes [OF assms, of can_open] eff sum zero
      sint_is_0_iff [of "g_errors s1"]
    by auto
qed

theorem target_design_returns_counter_witness:
  "traverse basenames scenario initial_state = Inr scenario_state \<and>
   target_design basenames writable scenario initial_state = Inr (0, state_after_scenario) \<and>
   sint (g_errors initial_state) + int (reported (calls_of scenario)) = 0 \<and>
   writable (flag_o scenario) \<and>
   outfile state_after_scenario =
     outfile initial_state @ Open (flag_o scenario) # map Emit (g_entities scenario_state) @ [Close] \<and>
   traverse basenames second_design state_after_scenario_error =
     Inr (state_after_scenario_error\<lparr>g_entities := [ent_alu]\<rparr>) \<and>
   target_design basenames writable second_design state_after_scenario_error =
     Inr (1, state_after_scenario_error\<lparr>deleted := [ent_top, ent_sub, ent_alu]\<rparr>) \<and>
   sint (g_errors state_after_scenario_error) + int (reported (calls_of second_design)) = 1 \<and>
   outfile (state_after_scenario_error\<lparr>deleted := [ent_top, ent_sub, ent_alu]\<rparr>) =
     outfile state_after_scenario_error"
  using target_design_returns_counter [OF scenario_traverse, of writable]
    target_design_returns_counter [OF traverse_second_design, of writable]
  by (simp add: scenario_traverse traverse_second_design run_scenario run_second_design)
     (simp add: scenario_defs calls_of_def)

text \<open>
  The claim as it was stated fails in three ways. After a failed run, a run that
  reports no error returns 1, the error of the run before it. A run with an empty flag
  \<^verbatim>\<open>-o\<close> returns 0 and writes nothing. A run that reports \<open>2^31\<close> errors from the
  static initialiser returns \<open>- 2^31\<close>, which is neither the number of its errors nor
  positive, and writes nothing.
\<close>

theorem returned_count_counterexample:
  "target_design basenames writable scenario_error initial_state =
     Inr (1, state_after_scenario_error) \<and>
   reported (calls_of second_design) = 0 \<and>
   target_design basenames writable second_design state_after_scenario_error =
     Inr (1, state_after_scenario_error\<lparr>deleted := [ent_top, ent_sub, ent_alu]\<rparr>) \<and>
   reported (calls_of scenario_no_path) = 0 \<and>
   target_design basenames writable scenario_no_path initial_state =
     Inr (0, scenario_state\<lparr>g_entities := [], deleted := [ent_top, ent_sub]\<rparr>) \<and>
   outfile (scenario_state\<lparr>g_entities := [], deleted := [ent_top, ent_sub]\<rparr>) =
     outfile initial_state \<and>
   reported (calls_of (errors_design 2147483648)) = 2147483648 \<and>
   map_sum id fst (target_design basenames writable (errors_design 2147483648) initial_state) =
     Inr (- 2147483648) \<and>
   map_sum id (outfile \<circ> snd)
       (target_design basenames writable (errors_design 2147483648) initial_state) =
     Inr []"
  using run_errors_design [of basenames writable 2147483648]
  by (simp add: run_scenario_error run_second_design run_scenario_no_path
        reported_errors_design)
     (simp add: scenario_defs calls_of_def)

text \<open>
  C2, as amended. When the traversal returns, \<^verbatim>\<open>target_design\<close> returns and leaves
  the entity list empty, with every entity of the list deleted. It leaves the counter
  and the signal map as the traversal left them: the counter is its value at the start
  of the run plus the errors reported, in arithmetic of 32 bits, and the map holds the
  signals it held at the start and those the run registered, each with its name and
  its owner pointer. An owner pointer of the map to an entity of the list now points to
  a deleted object.
\<close>

theorem cleanup_clears_only_entities:
  assumes "traverse bn des s = Inr s1"
  shows "\<exists>r s'. target_design bn can_open des s = Inr (r, s') \<and>
     g_entities s' = [] \<and>
     deleted s' = deleted s @ g_entities s1 \<and>
     g_errors s' = g_errors s1 \<and>
     g_errors s' = g_errors s + of_nat (reported (calls_of des)) \<and>
     g_known_signals s' = g_known_signals s1 \<and>
     dom (g_known_signals s') =
       dom (g_known_signals s) \<union> set (registered_signals (calls_of des)) \<and>
     (\<forall>sig d. g_known_signals s' sig = Some d \<and> ent d \<in> set (g_entities s1) \<longrightarrow>
        ent d \<in> set (deleted s'))"
proof -
  from assms have d: "draw bn (calls_of des) s = Inr s1"
    by (simp add: traverse_draw)
  show ?thesis
    using target_design_completes [OF assms, of can_open] draw_effect [OF d] by auto
qed

theorem cleanup_clears_only_entities_witness:
  "traverse basenames scenario_error initial_state =
     Inr (state_after_scenario_error\<lparr>g_entities := [ent_top, ent_sub], deleted := []\<rparr>) \<and>
   target_design basenames writable scenario_error initial_state =
     Inr (1, state_after_scenario_error) \<and>
   g_entities state_after_scenario_error = [] \<and>
   deleted state_after_scenario_error = [ent_top, ent_sub] \<and>
   g_errors state_after_scenario_error = g_errors initial_state + 1 \<and>
   dom (g_known_signals state_after_scenario_error) = {1, 2} \<and>
   g_known_signals state_after_scenario_error 1 = Some \<lparr>renamed = ''clk'', ent = ent_top\<rparr> \<and>
   ent_top \<in> set (deleted state_after_scenario_error)"
  using cleanup_clears_only_entities [OF traverse_scenario_error, of writable]
  by (simp add: traverse_scenario_error run_scenario_error)
     (auto simp: scenario_defs)

text \<open>
  The claim as it was stated fails after a failed run and after a successful one: the
  failed run of \<open>scenario_error\<close> leaves the counter at 1 and both signals in the map,
  and the successful run of \<open>scenario\<close> leaves both signals in the map.
\<close>

theorem full_reset_counterexample:
  "target_design basenames writable scenario_error initial_state =
     Inr (1, state_after_scenario_error) \<and>
   g_errors state_after_scenario_error = 1 \<and>
   g_known_signals state_after_scenario_error 1 = Some \<lparr>renamed = ''clk'', ent = ent_top\<rparr> \<and>
   target_design basenames writable scenario initial_state = Inr (0, state_after_scenario) \<and>
   g_known_signals state_after_scenario 2 = Some \<lparr>renamed = ''q_reg'', ent = ent_sub\<rparr>"
  by (simp add: run_scenario_error run_scenario)
     (simp add: scenario_defs)

end
